theory Spec2Isabelle
  imports Main "HOL-Library.Word"
begin

section \<open>opaque.h: the owning pointer of an opaque private implementation\<close>

text \<open>
  The header \<^verbatim>\<open>include/opaque/opaque.h\<close> declares \<^verbatim>\<open>opaq::IPrivate\<close>, the base of
  every private implementation struct, and \<^verbatim>\<open>opaq::PrivateAutoPtr<T>\<close>, the pointer that
  owns one. The methods mutate the pointer they are called on and, through
  \<^verbatim>\<open>delete\<close>, the free store; the embedding passes both around in one record.
\<close>

subsection \<open>Build configuration\<close>

text \<open>
  Two preprocessor symbols decide what is compiled:
  \<^verbatim>\<open>#if !defined(NDEBUG) || defined(_DEBUG)  #define OPAQ_DEBUG\<close>.
  \<open>def_NDEBUG\<close> and \<open>def_DEBUG\<close> say whether \<^verbatim>\<open>NDEBUG\<close> and \<^verbatim>\<open>_DEBUG\<close> are defined.
\<close>

record build =
  def_NDEBUG :: bool
  def_DEBUG :: bool

definition OPAQ_DEBUG :: "build \<Rightarrow> bool" where
  "OPAQ_DEBUG cfg = (\<not> def_NDEBUG cfg \<or> def_DEBUG cfg)"

text \<open>
  The spec's checked build has the sentinel stored and the assertions active. The
  assertions of \<^verbatim>\<open><cassert>\<close> are active when \<^verbatim>\<open>NDEBUG\<close> is not defined, and then
  \<^verbatim>\<open>OPAQ_DEBUG\<close> is defined too.
\<close>

definition checked_build :: "build \<Rightarrow> bool" where
  "checked_build cfg = (OPAQ_DEBUG cfg \<and> \<not> def_NDEBUG cfg)"

subsection \<open>IPrivate\<close>

text \<open>
  \<^verbatim>\<open>unsigned int _privateInstVerification\<close> is taken as 32 bits wide. The field is
  declared under \<^verbatim>\<open>OPAQ_DEBUG\<close> only; the record stands for the storage of an object,
  and \<open>privateInstVerification\<close> for the word at the place of the field, which no code
  reads in a build without \<^verbatim>\<open>OPAQ_DEBUG\<close>. A pointer that
  \<^verbatim>\<open>reinterpret_cast<IPrivate *>\<close> turned into an \<^verbatim>\<open>IPrivate *\<close> without its target being one
  finds whatever word lies there.
\<close>

record IPrivate =
  privateInstVerification :: "32 word"

definition OPAQ_IPRIVATE_VERIFICATION :: "32 word" where
  "OPAQ_IPRIVATE_VERIFICATION = 0xBEEFDEAD"

text \<open>
  \<^verbatim>\<open>IPrivate() : _privateInstVerification(OPAQ_IPRIVATE_VERIFICATION) {}\<close> under
  \<^verbatim>\<open>OPAQ_DEBUG\<close>, the implicit constructor that writes nothing otherwise. The
  argument is the storage as it was allocated.
\<close>

definition IPrivate_ctor :: "build \<Rightarrow> 'a IPrivate_scheme \<Rightarrow> 'a IPrivate_scheme" where
  "IPrivate_ctor cfg raw =
     (if OPAQ_DEBUG cfg
      then raw\<lparr>privateInstVerification := OPAQ_IPRIVATE_VERIFICATION\<rparr>
      else raw)"

text \<open>
  \<^verbatim>\<open>template <typename T> struct Private : public IPrivate { T &self; ... }\<close> with
  \<^verbatim>\<open>Private(T &i) : self(i) {}\<close> and \<^verbatim>\<open>Private(T *i) : self(*i) {}\<close>: the constructor of
  the base runs first, then the reference to the public instance is bound. Both
  constructors bind \<open>self\<close> to the object at the address given.
\<close>

record Private = IPrivate +
  self :: nat

definition Private_ctor :: "build \<Rightarrow> nat \<Rightarrow> Private \<Rightarrow> Private" where
  "Private_ctor cfg i raw = (IPrivate_ctor cfg raw)\<lparr>self := i\<rparr>"

subsection \<open>Memory\<close>

text \<open>
  Addresses are natural numbers and \<open>0\<close> is the null pointer. \<open>ptr w a\<close> is the member
  \<^verbatim>\<open>T *ptr\<close> of the \<^verbatim>\<open>PrivateAutoPtr\<close> at location \<open>a\<close>; \<open>objs w\<close> maps the address of every
  live private instance to its storage; \<open>deleted w\<close> lists the addresses whose
  (virtual) destructor has run, the latest first, so that
  \<open>count_list (deleted w) x\<close> is the destruction counter of \<open>x\<close>.
\<close>

type_synonym addr = nat

record world =
  ptr :: "addr \<Rightarrow> addr"
  objs :: "addr \<rightharpoonup> IPrivate"
  deleted :: "addr list"

text \<open>
  Reading through or deleting a pointer to no live object is undefined behaviour in
  C++; the embedding makes it the outcome \<open>UndefinedBehaviour\<close>. A failed \<^verbatim>\<open>assert\<close>
  aborts the process: \<open>AssertionFailed\<close>.
\<close>

datatype failure = AssertionFailed | UndefinedBehaviour

text \<open>\<^verbatim>\<open>ip->privateInstVerification()\<close>\<close>

definition read_verification :: "world \<Rightarrow> addr \<Rightarrow> failure + 32 word" where
  "read_verification w ip =
     (case objs w ip of
        None \<Rightarrow> Inl UndefinedBehaviour
      | Some obj \<Rightarrow> Inr (privateInstVerification obj))"

text \<open>
  \<^verbatim>\<open>assert(e)\<close> of \<^verbatim>\<open><cassert>\<close>: with \<^verbatim>\<open>NDEBUG\<close> defined it expands to nothing and \<open>e\<close>
  is not evaluated; otherwise \<open>e\<close> is evaluated and the process aborts when it is false.
\<close>

definition assert_c :: "build \<Rightarrow> (failure + bool) \<Rightarrow> failure + unit" where
  "assert_c cfg e =
     (if def_NDEBUG cfg then Inr ()
      else (case e of
              Inl f \<Rightarrow> Inl f
            | Inr b \<Rightarrow> (if b then Inr () else Inl AssertionFailed)))"

text \<open>
  \<^verbatim>\<open>delete ip\<close> for a non-null \<open>ip\<close>: the virtual destructor of the object runs (its
  side effect is the entry in \<open>deleted\<close>) and the storage is given back.
\<close>

definition delete_obj :: "world \<Rightarrow> addr \<Rightarrow> failure + world" where
  "delete_obj w ip =
     (case objs w ip of
        None \<Rightarrow> Inl UndefinedBehaviour
      | Some obj \<Rightarrow> Inr (w\<lparr>objs := (objs w)(ip := None), deleted := ip # deleted w\<rparr>))"

subsection \<open>PrivateAutoPtr\<close>

text \<open>\<^verbatim>\<open>PrivateAutoPtr(T *p = 0) : ptr(p) {}\<close>; default construction passes \<open>0\<close>.\<close>

definition PrivateAutoPtr_ctor :: "addr \<Rightarrow> addr \<Rightarrow> world \<Rightarrow> world" where
  "PrivateAutoPtr_ctor this p w = w\<lparr>ptr := (ptr w)(this := p)\<rparr>"

text \<open>
  \<^verbatim>\<open>void reset(T *p = 0)\<close>:
  \<^verbatim>\<open>ip = reinterpret_cast<IPrivate *>(ptr); if(ip) { assert(ip->privateInstVerification() == OPAQ_IPRIVATE_VERIFICATION); delete ip; } ptr = p;\<close>
\<close>

definition reset :: "build \<Rightarrow> addr \<Rightarrow> addr \<Rightarrow> world \<Rightarrow> failure + world" where
  "reset cfg this p w =
     (let ip = ptr w this in
      if ip \<noteq> 0 then
        (case assert_c cfg
                (case read_verification w ip of
                   Inl f \<Rightarrow> Inl f
                 | Inr v \<Rightarrow> Inr (v = OPAQ_IPRIVATE_VERIFICATION)) of
           Inl f \<Rightarrow> Inl f
         | Inr u \<Rightarrow>
             (case delete_obj w ip of
                Inl f \<Rightarrow> Inl f
              | Inr w1 \<Rightarrow> Inr (w1\<lparr>ptr := (ptr w1)(this := p)\<rparr>)))
      else Inr (w\<lparr>ptr := (ptr w)(this := p)\<rparr>))"

text \<open>\<^verbatim>\<open>~PrivateAutoPtr() { reset(); }\<close>\<close>

definition PrivateAutoPtr_dtor :: "build \<Rightarrow> addr \<Rightarrow> world \<Rightarrow> failure + world" where
  "PrivateAutoPtr_dtor cfg this w = reset cfg this 0 w"

text \<open>\<^verbatim>\<open>T *get() const\<close>, \<^verbatim>\<open>T const *getConst() const\<close>\<close>

definition get :: "addr \<Rightarrow> world \<Rightarrow> addr" where
  "get this w = ptr w this"

definition getConst :: "addr \<Rightarrow> world \<Rightarrow> addr" where
  "getConst this w = ptr w this"

text \<open>\<^verbatim>\<open>T *release() { T *p = ptr; ptr = 0; return p; }\<close>\<close>

definition release :: "addr \<Rightarrow> world \<Rightarrow> addr \<times> world" where
  "release this w = (let p = ptr w this in (p, w\<lparr>ptr := (ptr w)(this := 0)\<rparr>))"

text \<open>
  \<^verbatim>\<open>void swap(PrivateAutoPtr &other) { std::swap(ptr, other.ptr); }\<close>, with the three
  moves of \<^verbatim>\<open>std::swap\<close>: \<^verbatim>\<open>tmp = a; a = b; b = tmp\<close>. \<open>this\<close> and \<open>other\<close> may be the same
  pointer.
\<close>

definition swap :: "addr \<Rightarrow> addr \<Rightarrow> world \<Rightarrow> world" where
  "swap this other w =
     (let tmp = ptr w this;
          w1 = w\<lparr>ptr := (ptr w)(this := ptr w other)\<rparr>
      in w1\<lparr>ptr := (ptr w1)(other := tmp)\<rparr>)"

text \<open>\<^verbatim>\<open>bool isNull() const { return !ptr; }\<close>\<close>

definition isNull :: "addr \<Rightarrow> world \<Rightarrow> bool" where
  "isNull this w = (\<not> (ptr w this \<noteq> 0))"

text \<open>
  \<^verbatim>\<open>bool isValid() const\<close>, declared under \<^verbatim>\<open>OPAQ_DEBUG\<close>:
  \<^verbatim>\<open>ptr && ip->privateInstVerification() == OPAQ_IPRIVATE_VERIFICATION\<close>; the right
  operand is evaluated only for a non-null \<open>ptr\<close>.
\<close>

definition isValid :: "addr \<Rightarrow> world \<Rightarrow> failure + bool" where
  "isValid this w =
     (if ptr w this \<noteq> 0
      then (case read_verification w (ptr w this) of
              Inl f \<Rightarrow> Inl f
            | Inr v \<Rightarrow> Inr (v = OPAQ_IPRIVATE_VERIFICATION))
      else Inr False)"

subsection \<open>Sequences of operations\<close>

text \<open>
  The member functions that are not \<^verbatim>\<open>const\<close>, as operations of a client program on
  the pointers at given locations. The destructor runs when it is called explicitly
  and when the pointer goes out of scope.
\<close>

datatype op =
    Construct addr addr
  | Reset addr addr
  | Destructor addr
  | ScopeExit addr
  | Release addr
  | Swap addr addr

fun step :: "build \<Rightarrow> op \<Rightarrow> world \<Rightarrow> failure + world" where
  "step cfg (Construct this p) w = Inr (PrivateAutoPtr_ctor this p w)"
| "step cfg (Reset this p) w = reset cfg this p w"
| "step cfg (Destructor this) w = PrivateAutoPtr_dtor cfg this w"
| "step cfg (ScopeExit this) w = PrivateAutoPtr_dtor cfg this w"
| "step cfg (Release this) w = Inr (snd (release this w))"
| "step cfg (Swap this other) w = Inr (swap this other w)"

fun run :: "build \<Rightarrow> op list \<Rightarrow> world \<Rightarrow> failure + world" where
  "run cfg [] w = Inr w"
| "run cfg (x # xs) w =
     (case step cfg x w of
        Inl f \<Rightarrow> Inl f
      | Inr w1 \<Rightarrow> run cfg xs w1)"

text \<open>
  The three ways in which a pointer gives up what it holds: the end of its scope, an
  explicit \<^verbatim>\<open>reset\<close>, an explicit call of its destructor.
\<close>

datatype event = EndOfScope | ExplicitReset addr | ExplicitDestructor

fun event_op :: "addr \<Rightarrow> event \<Rightarrow> op" where
  "event_op this EndOfScope = ScopeExit this"
| "event_op this (ExplicitReset p) = Reset this p"
| "event_op this ExplicitDestructor = Destructor this"

text \<open>The pointer that an event leaves in \<open>ptr\<close>.\<close>

fun event_arg :: "event \<Rightarrow> addr" where
  "event_arg EndOfScope = 0"
| "event_arg (ExplicitReset p) = p"
| "event_arg ExplicitDestructor = 0"

subsection \<open>Auxiliary notions for the statements\<close>

text \<open>
  \<open>deletable cfg w x\<close>: a live object lies at \<open>x\<close> and the assertion of \<^verbatim>\<open>reset\<close> lets it
  pass, because it is compiled out or because the sentinel is right.
\<close>

definition deletable :: "build \<Rightarrow> world \<Rightarrow> addr \<Rightarrow> bool" where
  "deletable cfg w x =
     (case objs w x of
        None \<Rightarrow> False
      | Some obj \<Rightarrow>
          def_NDEBUG cfg \<or> privateInstVerification obj = OPAQ_IPRIVATE_VERIFICATION)"

text \<open>Builds and a small memory for the concrete instances below.\<close>

definition debug_build :: build where
  "debug_build = \<lparr>def_NDEBUG = False, def_DEBUG = False\<rparr>"

definition mixed_build :: build where
  "mixed_build = \<lparr>def_NDEBUG = True, def_DEBUG = True\<rparr>"

text \<open>
  Two pointers, at locations 2 and 3. The first holds the well-formed instance at
  address 10. Another well-formed instance lies at 20 and one with an overwritten
  sentinel at 30, held by the second pointer.
\<close>

definition world0 :: world where
  "world0 =
     \<lparr>ptr = (\<lambda>a. if a = 2 then 10 else if a = 3 then 30 else 0),
      objs = (\<lambda>a. if a = 10 \<or> a = 20
                   then Some \<lparr>privateInstVerification = OPAQ_IPRIVATE_VERIFICATION\<rparr>
                   else if a = 30 then Some \<lparr>privateInstVerification = 0\<rparr>
                   else None),
      deleted = []\<rparr>"

text \<open>The non-null instances that the explicit resets of a sequence hand over.\<close>

definition new_instances :: "event list \<Rightarrow> addr list" where
  "new_instances evs = filter (\<lambda>p. p \<noteq> 0) (map event_arg evs)"

section \<open>Properties\<close>

subsection \<open>The four outcomes of reset\<close>

lemma reset_of_null:
  "ptr w this = 0 \<Longrightarrow> reset cfg this p w = Inr (w\<lparr>ptr := (ptr w)(this := p)\<rparr>)"
  by (simp add: reset_def)

lemma reset_of_deletable:
  assumes "ptr w this \<noteq> 0" and "deletable cfg w (ptr w this)"
  shows "reset cfg this p w =
           Inr (w\<lparr>objs := (objs w)(ptr w this := None),
                  deleted := ptr w this # deleted w,
                  ptr := (ptr w)(this := p)\<rparr>)"
  using assms
  by (auto simp: reset_def Let_def deletable_def assert_c_def read_verification_def
                 delete_obj_def
           split: option.splits)

lemma reset_of_corrupted:
  assumes "ptr w this \<noteq> 0" and "objs w (ptr w this) = Some obj"
    and "\<not> def_NDEBUG cfg"
    and "privateInstVerification obj \<noteq> OPAQ_IPRIVATE_VERIFICATION"
  shows "reset cfg this p w = Inl AssertionFailed"
  using assms by (simp add: reset_def Let_def assert_c_def read_verification_def)

lemma reset_of_dangling:
  assumes "ptr w this \<noteq> 0" and "objs w (ptr w this) = None"
  shows "reset cfg this p w = Inl UndefinedBehaviour"
  using assms
  by (simp add: reset_def Let_def assert_c_def read_verification_def delete_obj_def)

lemma reset_returns_iff:
  "(\<exists>w'. reset cfg this p w = Inr w') \<longleftrightarrow>
   (ptr w this = 0 \<or> deletable cfg w (ptr w this))"
proof (cases "ptr w this = 0")
  case True
  then show ?thesis by (simp add: reset_of_null)
next
  case nonnull: False
  show ?thesis
  proof (cases "objs w (ptr w this)")
    case None
    with nonnull show ?thesis
      by (simp add: reset_of_dangling deletable_def)
  next
    case (Some obj)
    show ?thesis
    proof (cases "deletable cfg w (ptr w this)")
      case True
      with nonnull show ?thesis by (simp add: reset_of_deletable)
    next
      case False
      with Some have "\<not> def_NDEBUG cfg"
        and "privateInstVerification obj \<noteq> OPAQ_IPRIVATE_VERIFICATION"
        by (simp_all add: deletable_def)
      with nonnull Some False show ?thesis
        by (simp add: reset_of_corrupted)
    qed
  qed
qed

lemma deletable_world0_10 [simp]: "deletable cfg world0 10"
  by (simp add: deletable_def world0_def)

lemma deletable_world0_20 [simp]: "deletable cfg world0 20"
  by (simp add: deletable_def world0_def)

lemma ptr_world0 [simp]: "ptr world0 2 = 10" "ptr world0 3 = 30" "ptr world0 0 = 0"
  by (simp_all add: world0_def)

lemma objs_world0 [simp]:
  "objs world0 10 = Some \<lparr>privateInstVerification = OPAQ_IPRIVATE_VERIFICATION\<rparr>"
  "objs world0 20 = Some \<lparr>privateInstVerification = OPAQ_IPRIVATE_VERIFICATION\<rparr>"
  "objs world0 30 = Some \<lparr>privateInstVerification = 0\<rparr>"
  by (simp_all add: world0_def)

lemma deleted_world0 [simp]: "deleted world0 = []"
  by (simp add: world0_def)

subsection \<open>reset\<close>

text \<open>
  C1. \<^verbatim>\<open>reset(p)\<close> returns when the pointer was null or held a live instance that passes
  the assertion. Whenever it returns, the pointer holds exactly \<open>p\<close> (\<^verbatim>\<open>get()\<close> gives
  \<open>p\<close>); if it held a non-null instance before, the destructor of that instance has
  run once and no other (its destruction counter is one higher, and the instance is
  no longer live); if it was null, nothing was destroyed.
\<close>

theorem reset_holds_new_destroys_old_once:
  "(ptr w this = 0 \<or> deletable cfg w (ptr w this) \<longrightarrow> (\<exists>w'. reset cfg this p w = Inr w')) \<and>
   (reset cfg this p w = Inr w' \<longrightarrow>
      get this w' = p \<and>
      (ptr w this \<noteq> 0 \<longrightarrow>
         deleted w' = ptr w this # deleted w \<and>
         count_list (deleted w') (ptr w this) = count_list (deleted w) (ptr w this) + 1 \<and>
         objs w' = (objs w)(ptr w this := None)) \<and>
      (ptr w this = 0 \<longrightarrow> deleted w' = deleted w \<and> objs w' = objs w))"
proof (intro conjI impI)
  assume "ptr w this = 0 \<or> deletable cfg w (ptr w this)"
  then show "\<exists>w'. reset cfg this p w = Inr w'"
    by (simp add: reset_returns_iff)
next
  assume r: "reset cfg this p w = Inr w'"
  then have ok: "ptr w this = 0 \<or> deletable cfg w (ptr w this)"
    using reset_returns_iff [of cfg this p w] by blast
  show "get this w' = p"
  proof (cases "ptr w this = 0")
    case True
    with r show ?thesis by (auto simp: get_def reset_of_null)
  next
    case False
    with r ok show ?thesis by (auto simp: get_def reset_of_deletable)
  qed
  {
    assume nonnull: "ptr w this \<noteq> 0"
    with ok have w': "w' = w\<lparr>objs := (objs w)(ptr w this := None),
                            deleted := ptr w this # deleted w,
                            ptr := (ptr w)(this := p)\<rparr>"
      using r by (simp add: reset_of_deletable)
    show "deleted w' = ptr w this # deleted w" by (simp add: w')
    show "count_list (deleted w') (ptr w this) = count_list (deleted w) (ptr w this) + 1"
      by (simp add: w')
    show "objs w' = (objs w)(ptr w this := None)" by (simp add: w')
  }
  {
    assume null: "ptr w this = 0"
    then have w': "w' = w\<lparr>ptr := (ptr w)(this := p)\<rparr>"
      using r by (simp add: reset_of_null)
    show "deleted w' = deleted w" by (simp add: w')
    show "objs w' = objs w" by (simp add: w')
  }
qed

theorem reset_holds_new_destroys_old_once_witness:
  "\<exists>w'. reset debug_build 2 20 world0 = Inr w' \<and> get 2 w' = 20 \<and> deleted w' = [10] \<and>
        count_list (deleted w') 10 = 1 \<and> objs w' 10 = None"
proof -
  obtain w' where r: "reset debug_build 2 20 world0 = Inr w'"
    using reset_holds_new_destroys_old_once [of world0 2 debug_build 20] by auto
  with reset_holds_new_destroys_old_once [of world0 2 debug_build 20 w']
  show ?thesis by simp
qed

subsection \<open>release\<close>

lemma release_fst: "fst (release this w) = ptr w this"
  by (simp add: release_def Let_def)

lemma release_snd: "snd (release this w) = w\<lparr>ptr := (ptr w)(this := 0)\<rparr>"
  by (simp add: release_def Let_def)

text \<open>
  C3. \<^verbatim>\<open>release()\<close> returns the pointer that was held; afterwards \<^verbatim>\<open>isNull()\<close> is true; the
  call destroys nothing (the live objects and the destruction counters are as before);
  and the destructor of the pointer, run on what \<^verbatim>\<open>release()\<close> left, returns without
  changing anything at all, so the released instance stays with the caller.
\<close>

theorem release_hands_over_undestroyed:
  "fst (release this w) = ptr w this \<and>
   isNull this (snd (release this w)) \<and>
   objs (snd (release this w)) = objs w \<and>
   deleted (snd (release this w)) = deleted w \<and>
   PrivateAutoPtr_dtor cfg this (snd (release this w)) = Inr (snd (release this w))"
  by (simp add: release_fst release_snd isNull_def PrivateAutoPtr_dtor_def reset_of_null)

theorem release_hands_over_undestroyed_witness:
  "fst (release 2 world0) = 10 \<and> isNull 2 (snd (release 2 world0)) \<and>
   objs (snd (release 2 world0)) 10 =
     Some \<lparr>privateInstVerification = OPAQ_IPRIVATE_VERIFICATION\<rparr> \<and>
   deleted (snd (release 2 world0)) = [] \<and>
   PrivateAutoPtr_dtor debug_build 2 (snd (release 2 world0)) = Inr (snd (release 2 world0))"
  using release_hands_over_undestroyed [of 2 world0 debug_build] by simp

text \<open>
  C10. \<^verbatim>\<open>release()\<close> has no failing outcome in any build, whatever the pointer holds: as
  a step of a program it always completes, it returns the held pointer, leaves null
  in the pointer, and every object, the held one with its sentinel as it was
  included, stays live and undestroyed.
\<close>

theorem release_validates_nothing:
  "step cfg (Release this) w = Inr (snd (release this w)) \<and>
   fst (release this w) = ptr w this \<and>
   ptr (snd (release this w)) this = 0 \<and>
   objs (snd (release this w)) = objs w \<and>
   deleted (snd (release this w)) = deleted w"
  by (simp add: release_fst release_snd)

theorem release_validates_nothing_witness:
  "checked_build debug_build \<and>
   step debug_build (Release 3) world0 = Inr (snd (release 3 world0)) \<and>
   fst (release 3 world0) = 30 \<and>
   ptr (snd (release 3 world0)) 3 = 0 \<and>
   objs (snd (release 3 world0)) 30 = Some \<lparr>privateInstVerification = 0\<rparr> \<and>
   deleted (snd (release 3 world0)) = []"
  using release_validates_nothing [of debug_build 3 world0]
  by (simp add: checked_build_def OPAQ_DEBUG_def debug_build_def)

subsection \<open>The assertion\<close>

text \<open>
  C5. In a checked build, \<^verbatim>\<open>reset\<close> and the destructor abort with a failed assertion when
  the pointer holds a non-null live instance whose sentinel is not the magic constant;
  they return when the pointer is null and when the held instance carries the magic
  constant.
\<close>

theorem reset_asserts_sentinel:
  assumes "checked_build cfg"
  shows
    "(ptr w this \<noteq> 0 \<and> objs w (ptr w this) = Some obj \<and>
      privateInstVerification obj \<noteq> OPAQ_IPRIVATE_VERIFICATION \<longrightarrow>
        reset cfg this p w = Inl AssertionFailed \<and>
        PrivateAutoPtr_dtor cfg this w = Inl AssertionFailed) \<and>
     (ptr w this = 0 \<longrightarrow>
        (\<exists>w'. reset cfg this p w = Inr w') \<and> (\<exists>w'. PrivateAutoPtr_dtor cfg this w = Inr w')) \<and>
     (ptr w this \<noteq> 0 \<and> objs w (ptr w this) = Some obj \<and>
      privateInstVerification obj = OPAQ_IPRIVATE_VERIFICATION \<longrightarrow>
        (\<exists>w'. reset cfg this p w = Inr w') \<and> (\<exists>w'. PrivateAutoPtr_dtor cfg this w = Inr w'))"
proof -
  from assms have active: "\<not> def_NDEBUG cfg"
    by (simp add: checked_build_def)
  show ?thesis
  proof (intro conjI impI)
    assume bad: "ptr w this \<noteq> 0 \<and> objs w (ptr w this) = Some obj \<and>
      privateInstVerification obj \<noteq> OPAQ_IPRIVATE_VERIFICATION"
    with active show "reset cfg this p w = Inl AssertionFailed"
      by (simp add: reset_of_corrupted)
    from bad active show "PrivateAutoPtr_dtor cfg this w = Inl AssertionFailed"
      by (simp add: PrivateAutoPtr_dtor_def reset_of_corrupted)
  next
    assume "ptr w this = 0"
    then show "\<exists>w'. reset cfg this p w = Inr w'"
      and "\<exists>w'. PrivateAutoPtr_dtor cfg this w = Inr w'"
      by (simp_all add: PrivateAutoPtr_dtor_def reset_returns_iff)
  next
    assume "ptr w this \<noteq> 0 \<and> objs w (ptr w this) = Some obj \<and>
      privateInstVerification obj = OPAQ_IPRIVATE_VERIFICATION"
    then have "deletable cfg w (ptr w this)"
      by (simp add: deletable_def)
    then show "\<exists>w'. reset cfg this p w = Inr w'"
      and "\<exists>w'. PrivateAutoPtr_dtor cfg this w = Inr w'"
      by (simp_all add: PrivateAutoPtr_dtor_def reset_returns_iff)
  qed
qed

theorem reset_asserts_sentinel_witness:
  "checked_build debug_build \<and>
   reset debug_build 3 0 world0 = Inl AssertionFailed \<and>
   PrivateAutoPtr_dtor debug_build 3 world0 = Inl AssertionFailed \<and>
   (\<exists>w'. reset debug_build 2 0 world0 = Inr w') \<and>
   (\<exists>w'. reset debug_build 0 20 world0 = Inr w')"
proof -
  have c: "checked_build debug_build"
    by (simp add: checked_build_def OPAQ_DEBUG_def debug_build_def)
  have magic: "OPAQ_IPRIVATE_VERIFICATION \<noteq> 0"
    by (simp add: OPAQ_IPRIVATE_VERIFICATION_def)
  from reset_asserts_sentinel [OF c, of world0 3 "\<lparr>privateInstVerification = 0\<rparr>" 0] magic
  have "reset debug_build 3 0 world0 = Inl AssertionFailed"
    and "PrivateAutoPtr_dtor debug_build 3 world0 = Inl AssertionFailed"
    by simp_all
  moreover
  from reset_asserts_sentinel
         [OF c, of world0 2 "\<lparr>privateInstVerification = OPAQ_IPRIVATE_VERIFICATION\<rparr>" 0]
  have "\<exists>w'. reset debug_build 2 0 world0 = Inr w'" by simp
  moreover
  from reset_asserts_sentinel [OF c, of world0 0 "\<lparr>privateInstVerification = 0\<rparr>" 20]
  have "\<exists>w'. reset debug_build 0 20 world0 = Inr w'" by simp
  ultimately show ?thesis using c by simp
qed

text \<open>
  With both \<^verbatim>\<open>NDEBUG\<close> and \<^verbatim>\<open>_DEBUG\<close> defined the sentinel is stored (\<^verbatim>\<open>OPAQ_DEBUG\<close>) and
  \<^verbatim>\<open>assert\<close> is compiled out: such a build is not a checked build, and \<^verbatim>\<open>reset\<close> deletes
  an instance with a wrong sentinel.
\<close>

lemma mixed_build_not_checked:
  "OPAQ_DEBUG mixed_build \<and> \<not> checked_build mixed_build \<and>
   (\<exists>w'. reset mixed_build 3 0 world0 = Inr w' \<and> deleted w' = [30])"
proof -
  have "deletable mixed_build world0 (ptr world0 3)"
    by (simp add: deletable_def mixed_build_def)
  then have "reset mixed_build 3 0 world0 =
      Inr (world0\<lparr>objs := (objs world0)(ptr world0 3 := None),
                  deleted := ptr world0 3 # deleted world0,
                  ptr := (ptr world0)(3 := 0)\<rparr>)"
    by (intro reset_of_deletable) simp_all
  then show ?thesis
    by (simp add: OPAQ_DEBUG_def checked_build_def mixed_build_def)
qed

subsection \<open>swap\<close>

lemma swap_ptr:
  "ptr (swap a b w) = (\<lambda>c. if c = b then ptr w a else if c = a then ptr w b else ptr w c)"
  by (auto simp: swap_def Let_def)

lemma swap_rest: "objs (swap a b w) = objs w" "deleted (swap a b w) = deleted w"
  by (simp_all add: swap_def Let_def)

lemma swap_as_update:
  "swap a b w = w\<lparr>ptr := (\<lambda>c. if c = b then ptr w a else if c = a then ptr w b else ptr w c)\<rparr>"
proof -
  have "(ptr w)(a := ptr w b, b := ptr w a) =
        (\<lambda>c. if c = b then ptr w a else if c = a then ptr w b else ptr w c)"
    by (simp add: fun_eq_iff)
  then show ?thesis
    by (simp add: swap_def Let_def)
qed

text \<open>
  C6. \<^verbatim>\<open>a.swap(b)\<close> leaves in \<open>a\<close> what \<open>b\<close> held and in \<open>b\<close> what \<open>a\<close> held, touches no other
  pointer, creates and destroys nothing (the live objects and the destruction counters
  are as before), and a second \<^verbatim>\<open>a.swap(b)\<close> gives back the memory as it was. \<open>a\<close> and
  \<open>b\<close> may be the same pointer.
\<close>

theorem swap_exchanges_and_is_involution:
  "ptr (swap a b w) a = ptr w b \<and>
   ptr (swap a b w) b = ptr w a \<and>
   (c \<noteq> a \<and> c \<noteq> b \<longrightarrow> ptr (swap a b w) c = ptr w c) \<and>
   objs (swap a b w) = objs w \<and>
   deleted (swap a b w) = deleted w \<and>
   swap a b (swap a b w) = w"
proof -
  have "swap a b (swap a b w) = w"
    by (simp add: swap_as_update fun_eq_iff)
  then show ?thesis
    by (simp add: swap_ptr swap_rest)
qed

theorem swap_exchanges_and_is_involution_witness:
  "ptr (swap 2 3 world0) 2 = 30 \<and> ptr (swap 2 3 world0) 3 = 10 \<and>
   ptr (swap 2 3 world0) 4 = ptr world0 4 \<and>
   deleted (swap 2 3 world0) = [] \<and>
   swap 2 3 (swap 2 3 world0) = world0"
  using swap_exchanges_and_is_involution [of 2 3 world0 4] by simp

subsection \<open>isNull and the constructor\<close>

text \<open>
  C7. \<^verbatim>\<open>isNull()\<close> is true directly after default construction, after a \<^verbatim>\<open>reset(0)\<close> that
  returned, and after \<^verbatim>\<open>release()\<close>; in every state it is true exactly when the held
  pointer, as \<^verbatim>\<open>get()\<close> returns it, is null.
\<close>

theorem isNull_after_ctor_reset_release:
  "isNull this (PrivateAutoPtr_ctor this 0 w) \<and>
   (reset cfg this 0 w = Inr w' \<longrightarrow> isNull this w') \<and>
   isNull this (snd (release this w)) \<and>
   (isNull this w \<longleftrightarrow> get this w = 0)"
proof (intro conjI impI)
  assume r: "reset cfg this 0 w = Inr w'"
  then have "ptr w this = 0 \<or> deletable cfg w (ptr w this)"
    using reset_returns_iff [of cfg this 0 w] by blast
  then show "isNull this w'"
  proof
    assume "ptr w this = 0"
    with r show ?thesis by (auto simp: reset_of_null isNull_def)
  next
    assume d: "deletable cfg w (ptr w this)"
    show ?thesis
    proof (cases "ptr w this = 0")
      case True
      with r show ?thesis by (auto simp: reset_of_null isNull_def)
    next
      case False
      with r d show ?thesis by (auto simp: reset_of_deletable isNull_def)
    qed
  qed
qed (simp_all add: isNull_def get_def PrivateAutoPtr_ctor_def release_snd)

theorem isNull_after_ctor_reset_release_witness:
  "isNull 2 (PrivateAutoPtr_ctor 2 0 world0) \<and>
   (\<exists>w'. reset debug_build 2 0 world0 = Inr w' \<and> isNull 2 w') \<and>
   isNull 2 (snd (release 2 world0)) \<and>
   \<not> isNull 2 world0 \<and> get 2 world0 = 10"
proof -
  obtain w' where r: "reset debug_build 2 0 world0 = Inr w'"
    using reset_returns_iff [of debug_build 2 0 world0] by auto
  with isNull_after_ctor_reset_release [of 2 world0 debug_build w']
  show ?thesis by (auto simp: get_def)
qed

text \<open>
  C8. The constructor has no failing outcome in any build and reads no object: for
  every pointer \<open>p\<close>, null, to a well-formed instance, to one with a wrong sentinel or
  to no object at all, the construction step completes, the new pointer holds exactly
  \<open>p\<close>, and no object, counter or other pointer is changed.
\<close>

theorem ctor_validates_nothing:
  "step cfg (Construct this p) w = Inr (PrivateAutoPtr_ctor this p w) \<and>
   get this (PrivateAutoPtr_ctor this p w) = p \<and>
   objs (PrivateAutoPtr_ctor this p w) = objs w \<and>
   deleted (PrivateAutoPtr_ctor this p w) = deleted w \<and>
   (other \<noteq> this \<longrightarrow> ptr (PrivateAutoPtr_ctor this p w) other = ptr w other)"
  by (simp add: PrivateAutoPtr_ctor_def get_def)

theorem ctor_validates_nothing_witness:
  "checked_build debug_build \<and>
   step debug_build (Construct 4 30) world0 = Inr (PrivateAutoPtr_ctor 4 30 world0) \<and>
   get 4 (PrivateAutoPtr_ctor 4 30 world0) = 30 \<and>
   objs (PrivateAutoPtr_ctor 4 30 world0) 30 = Some \<lparr>privateInstVerification = 0\<rparr> \<and>
   deleted (PrivateAutoPtr_ctor 4 30 world0) = [] \<and>
   ptr (PrivateAutoPtr_ctor 4 30 world0) 2 = 10"
  using ctor_validates_nothing [of debug_build 4 30 world0 2]
  by (simp add: checked_build_def OPAQ_DEBUG_def debug_build_def)

subsection \<open>Resetting a pointer to what it holds\<close>

text \<open>
  C9. When the pointer holds a non-null live instance \<open>x\<close> that passes the assertion,
  \<^verbatim>\<open>reset(x)\<close> returns, has destroyed \<open>x\<close>, and has stored the same address again:
  \<^verbatim>\<open>isNull()\<close> is false and \<^verbatim>\<open>get()\<close> returns \<open>x\<close>, at which no object is live any more.
\<close>

theorem reset_to_held_leaves_destroyed:
  assumes "ptr w this = x" and "x \<noteq> 0" and "deletable cfg w x"
  shows "\<exists>w'. reset cfg this x w = Inr w' \<and>
              \<not> isNull this w' \<and> get this w' = x \<and>
              objs w' x = None \<and> deleted w' = x # deleted w"
  using assms by (simp add: reset_of_deletable isNull_def get_def)

theorem reset_to_held_leaves_destroyed_witness:
  "\<exists>w'. reset debug_build 2 10 world0 = Inr w' \<and>
        \<not> isNull 2 w' \<and> get 2 w' = 10 \<and> objs w' 10 = None \<and> deleted w' = [10]"
  using reset_to_held_leaves_destroyed [of world0 2 10 debug_build] by simp

subsection \<open>The sentinel\<close>

lemma reset_Inr_cases:
  assumes "reset cfg this p w = Inr w'"
  shows "(ptr w this = 0 \<and> w' = w\<lparr>ptr := (ptr w)(this := p)\<rparr>) \<or>
         (ptr w this \<noteq> 0 \<and> deletable cfg w (ptr w this) \<and>
          w' = w\<lparr>objs := (objs w)(ptr w this := None),
                  deleted := ptr w this # deleted w,
                  ptr := (ptr w)(this := p)\<rparr>)"
proof (cases "ptr w this = 0")
  case True
  with assms show ?thesis by (simp add: reset_of_null)
next
  case False
  from assms have "\<exists>v. reset cfg this p w = Inr v" by (rule exI)
  with False have "deletable cfg w (ptr w this)"
    by (simp add: reset_returns_iff)
  with False assms show ?thesis
    by (simp add: reset_of_deletable)
qed

lemma reset_keeps_objects:
  assumes "reset cfg this p w = Inr w'" and "objs w' a = Some obj"
  shows "objs w a = Some obj"
  using reset_Inr_cases [OF assms(1)] assms(2)
  by (auto split: if_splits)

lemma step_keeps_objects:
  assumes "step cfg x w = Inr w'" and "objs w' a = Some obj"
  shows "objs w a = Some obj"
proof (cases x)
  case (Construct this p)
  with assms show ?thesis by (auto simp: PrivateAutoPtr_ctor_def)
next
  case (Reset this p)
  with assms show ?thesis by (auto dest: reset_keeps_objects)
next
  case (Destructor this)
  with assms show ?thesis
    by (auto simp: PrivateAutoPtr_dtor_def dest: reset_keeps_objects)
next
  case (ScopeExit this)
  with assms show ?thesis
    by (auto simp: PrivateAutoPtr_dtor_def dest: reset_keeps_objects)
next
  case (Release this)
  with assms show ?thesis by (auto simp: release_snd)
next
  case (Swap this other)
  with assms show ?thesis by (auto simp: swap_rest)
qed

lemma run_keeps_objects:
  "run cfg xs w = Inr w' \<Longrightarrow> objs w' a = Some obj \<Longrightarrow> objs w a = Some obj"
proof (induction xs arbitrary: w)
  case Nil
  then show ?case by simp
next
  case (Cons x xs)
  from Cons.prems(1) obtain w1 where s: "step cfg x w = Inr w1" and r: "run cfg xs w1 = Inr w'"
    by (auto split: sum.splits)
  from Cons.IH [OF r Cons.prems(2)] have "objs w1 a = Some obj" .
  with s show ?case by (rule step_keeps_objects)
qed

lemma IPrivate_ctor_sentinel:
  "OPAQ_DEBUG cfg \<Longrightarrow>
   privateInstVerification (IPrivate_ctor cfg raw) = OPAQ_IPRIVATE_VERIFICATION"
  by (simp add: IPrivate_ctor_def)

text \<open>
  C4. In a build with \<^verbatim>\<open>OPAQ_DEBUG\<close> (every checked build is one) the constructors of
  \<^verbatim>\<open>IPrivate\<close> and of \<^verbatim>\<open>Private<T>\<close> leave the magic constant in the sentinel, whatever the
  storage held. No
  operation of the owning pointer writes to an object: an object that is live after
  any sequence of constructions, resets, destructor calls, releases and swaps that
  ran to its end was live before it, unchanged. So an object constructed by
  \<^verbatim>\<open>IPrivate()\<close> carries the magic constant for as long as it is live under these
  operations.
\<close>

theorem sentinel_set_and_never_changed:
  "(OPAQ_DEBUG cfg \<longrightarrow>
      privateInstVerification (IPrivate_ctor cfg raw) = OPAQ_IPRIVATE_VERIFICATION) \<and>
   (OPAQ_DEBUG cfg \<longrightarrow>
      privateInstVerification (Private_ctor cfg i praw) = OPAQ_IPRIVATE_VERIFICATION) \<and>
   (run cfg xs w = Inr w' \<and> objs w' a = Some obj \<longrightarrow> objs w a = Some obj) \<and>
   (OPAQ_DEBUG cfg \<and> objs w a = Some (IPrivate_ctor cfg raw) \<and>
    run cfg xs w = Inr w' \<and> objs w' a = Some obj \<longrightarrow>
      privateInstVerification obj = OPAQ_IPRIVATE_VERIFICATION)"
proof (intro conjI impI)
  assume "OPAQ_DEBUG cfg"
  then show "privateInstVerification (IPrivate_ctor cfg raw) = OPAQ_IPRIVATE_VERIFICATION"
    by (rule IPrivate_ctor_sentinel)
next
  assume "OPAQ_DEBUG cfg"
  then show "privateInstVerification (Private_ctor cfg i praw) = OPAQ_IPRIVATE_VERIFICATION"
    by (simp add: Private_ctor_def IPrivate_ctor_sentinel)
next
  assume "run cfg xs w = Inr w' \<and> objs w' a = Some obj"
  then show "objs w a = Some obj"
    using run_keeps_objects by blast
next
  assume h: "OPAQ_DEBUG cfg \<and> objs w a = Some (IPrivate_ctor cfg raw) \<and>
    run cfg xs w = Inr w' \<and> objs w' a = Some obj"
  then have "objs w a = Some obj"
    using run_keeps_objects by blast
  with h have "obj = IPrivate_ctor cfg raw" by simp
  with h show "privateInstVerification obj = OPAQ_IPRIVATE_VERIFICATION"
    by (simp add: IPrivate_ctor_sentinel)
qed

lemma run_example:
  "\<exists>w'. run debug_build [Swap 2 3, Release 2, Construct 4 20, Reset 4 0] world0 = Inr w' \<and>
        objs w' 10 = Some (IPrivate_ctor debug_build \<lparr>privateInstVerification = 0\<rparr>) \<and>
        objs w' 20 = None \<and> deleted w' = [20]"
  by (simp add: world0_def debug_build_def swap_def release_def PrivateAutoPtr_ctor_def
      reset_def assert_c_def read_verification_def delete_obj_def Let_def
      IPrivate_ctor_def OPAQ_DEBUG_def)

theorem sentinel_set_and_never_changed_witness:
  "OPAQ_DEBUG debug_build \<and>
   (\<exists>w' obj. run debug_build [Swap 2 3, Release 2, Construct 4 20, Reset 4 0] world0 = Inr w' \<and>
      objs w' 10 = Some obj \<and> privateInstVerification obj = OPAQ_IPRIVATE_VERIFICATION)"
proof -
  have d: "OPAQ_DEBUG debug_build"
    by (simp add: OPAQ_DEBUG_def debug_build_def)
  have o: "objs world0 10 = Some (IPrivate_ctor debug_build \<lparr>privateInstVerification = 0\<rparr>)"
    using d by (simp add: IPrivate_ctor_def)
  from run_example obtain w' obj
    where r: "run debug_build [Swap 2 3, Release 2, Construct 4 20, Reset 4 0] world0 = Inr w'"
      and l: "objs w' 10 = Some obj"
    by blast
  from sentinel_set_and_never_changed
         [of debug_build "\<lparr>privateInstVerification = 0\<rparr>" _ _
             "[Swap 2 3, Release 2, Construct 4 20, Reset 4 0]" world0 w' 10 obj]
       d o r l
  have "privateInstVerification obj = OPAQ_IPRIVATE_VERIFICATION" by blast
  with d r l show ?thesis by blast
qed

subsection \<open>Scope exit, explicit reset and explicit destructor call\<close>

lemma step_event_op:
  "step cfg (event_op this e) w = reset cfg this (event_arg e) w"
  by (cases e) (simp_all add: PrivateAutoPtr_dtor_def)

lemma deletable_cong:
  "objs w1 p = objs w p \<Longrightarrow> deletable cfg w1 p = deletable cfg w p"
  by (simp add: deletable_def)

lemma reset_effect:
  assumes "ptr w this = 0 \<or> deletable cfg w (ptr w this)"
  shows "\<exists>w1. reset cfg this q w = Inr w1 \<and>
              ptr w1 this = q \<and>
              deleted w1 = (if ptr w this = 0 then deleted w else ptr w this # deleted w) \<and>
              (\<forall>a. a \<noteq> ptr w this \<longrightarrow> objs w1 a = objs w a)"
proof (cases "ptr w this = 0")
  case True
  then have "reset cfg this q w = Inr (w\<lparr>ptr := (ptr w)(this := q)\<rparr>)"
    by (rule reset_of_null)
  with True show ?thesis by simp
next
  case False
  with assms have "reset cfg this q w =
      Inr (w\<lparr>objs := (objs w)(ptr w this := None),
             deleted := ptr w this # deleted w,
             ptr := (ptr w)(this := q)\<rparr>)"
    by (simp add: reset_of_deletable)
  with False show ?thesis by simp
qed

lemma new_instances_Cons:
  "new_instances (e # es) =
     (if event_arg e \<noteq> 0 then event_arg e # new_instances es else new_instances es)"
  by (simp add: new_instances_def)

lemma zero_notin_new_instances: "0 \<notin> set (new_instances evs)"
  by (simp add: new_instances_def)

lemma run_events_destructions:
  assumes "ptr w this = 0 \<or> deletable cfg w (ptr w this)"
    and "distinct (new_instances evs)"
    and "ptr w this \<notin> set (new_instances evs)"
    and "\<forall>p \<in> set (new_instances evs). deletable cfg w p"
    and "x \<noteq> 0"
    and "x \<notin> set (new_instances evs)"
  shows "\<exists>w'. run cfg (map (event_op this) evs) w = Inr w' \<and>
              count_list (deleted w') x =
                count_list (deleted w) x + (if evs \<noteq> [] \<and> x = ptr w this then 1 else 0)"
  using assms
proof (induction evs arbitrary: w)
  case Nil
  then show ?case by simp
next
  case (Cons e es)
  let ?c = "ptr w this" and ?q = "event_arg e"
  from Cons.prems(1) obtain w1
    where r: "reset cfg this ?q w = Inr w1"
      and p1: "ptr w1 this = ?q"
      and d1: "deleted w1 = (if ?c = 0 then deleted w else ?c # deleted w)"
      and o1: "\<And>a. a \<noteq> ?c \<Longrightarrow> objs w1 a = objs w a"
    using reset_effect [of w this cfg ?q] by blast
  have same: "deletable cfg w1 p = deletable cfg w p" if "p \<noteq> ?c" for p
    using that by (intro deletable_cong o1)
  have q_ok: "ptr w1 this = 0 \<or> deletable cfg w1 (ptr w1 this)"
  proof (cases "?q = 0")
    case True
    with p1 show ?thesis by simp
  next
    case False
    then have "?q \<in> set (new_instances (e # es))"
      by (simp add: new_instances_Cons)
    with Cons.prems(3,4) have "?q \<noteq> ?c" and "deletable cfg w ?q"
      by auto
    with p1 same show ?thesis by simp
  qed
  have dist: "distinct (new_instances es)"
    using Cons.prems(2) by (simp add: new_instances_Cons split: if_splits)
  have q_new: "ptr w1 this \<notin> set (new_instances es)"
  proof (cases "?q = 0")
    case True
    with p1 show ?thesis by (simp add: zero_notin_new_instances)
  next
    case False
    with Cons.prems(2) p1 show ?thesis by (simp add: new_instances_Cons)
  qed
  have rest: "set (new_instances es) \<subseteq> set (new_instances (e # es))"
    by (auto simp: new_instances_Cons)
  have all_ok: "\<forall>p \<in> set (new_instances es). deletable cfg w1 p"
  proof
    fix p
    assume "p \<in> set (new_instances es)"
    with rest have "p \<in> set (new_instances (e # es))" by blast
    with Cons.prems(3,4) have "p \<noteq> ?c" and "deletable cfg w p" by auto
    with same show "deletable cfg w1 p" by simp
  qed
  have x_new: "x \<notin> set (new_instances es)"
    using Cons.prems(6) rest by blast
  from Cons.IH [OF q_ok dist q_new all_ok Cons.prems(5) x_new]
  obtain w' where run': "run cfg (map (event_op this) es) w1 = Inr w'"
    and cnt: "count_list (deleted w') x =
                count_list (deleted w1) x + (if es \<noteq> [] \<and> x = ptr w1 this then 1 else 0)"
    by blast
  have "x \<noteq> ?q"
  proof (cases "?q = 0")
    case True
    with Cons.prems(5) show ?thesis by simp
  next
    case False
    with Cons.prems(6) show ?thesis by (auto simp: new_instances_Cons)
  qed
  with cnt p1 have "count_list (deleted w') x = count_list (deleted w1) x"
    by simp
  also have "\<dots> = count_list (deleted w) x + (if x = ?c then 1 else 0)"
    using d1 Cons.prems(5) by auto
  finally have "count_list (deleted w') x =
      count_list (deleted w) x + (if e # es \<noteq> [] \<and> x = ?c then 1 else 0)"
    by simp
  moreover have "run cfg (map (event_op this) (e # es)) w = Inr w'"
    using r run' by (simp add: step_event_op)
  ultimately show ?case by blast
qed

text \<open>
  C2, as the code has it. The destructor is \<^verbatim>\<open>reset(0)\<close>. Let the pointer hold a non-null
  live instance \<open>x\<close> that passes the assertion. Then every non-empty sequence of scope
  exit, explicit reset and explicit destructor call, in which the non-null pointers
  given to \<^verbatim>\<open>reset\<close> are pairwise distinct live instances other than \<open>x\<close> that pass the
  assertion too, runs to its end, and the destructor of \<open>x\<close> has run exactly once in
  it.
\<close>

theorem held_instance_destroyed_exactly_once:
  assumes "ptr w this = x" and "x \<noteq> 0" and "deletable cfg w x"
    and "evs \<noteq> []"
    and "distinct (new_instances evs)"
    and "x \<notin> set (new_instances evs)"
    and "\<forall>p \<in> set (new_instances evs). deletable cfg w p"
  shows "PrivateAutoPtr_dtor cfg this w = reset cfg this 0 w \<and>
         (\<exists>w'. run cfg (map (event_op this) evs) w = Inr w' \<and>
               count_list (deleted w') x = count_list (deleted w) x + 1)"
proof -
  from assms(1,3) have held: "ptr w this = 0 \<or> deletable cfg w (ptr w this)"
    by simp
  from assms(1,6) have notin: "ptr w this \<notin> set (new_instances evs)"
    by simp
  from run_events_destructions [OF held assms(5) notin assms(7) assms(2) assms(6)]
  obtain w' where "run cfg (map (event_op this) evs) w = Inr w'"
    and "count_list (deleted w') x =
           count_list (deleted w) x + (if evs \<noteq> [] \<and> x = ptr w this then 1 else 0)"
    by blast
  with assms(1,4) show ?thesis
    by (auto simp: PrivateAutoPtr_dtor_def)
qed

theorem held_instance_destroyed_exactly_once_witness:
  "\<exists>w'. run debug_build
          (map (event_op 2) [ExplicitReset 20, ExplicitDestructor, EndOfScope]) world0 = Inr w' \<and>
        count_list (deleted w') 10 = 1"
  using held_instance_destroyed_exactly_once
          [of world0 2 10 debug_build "[ExplicitReset 20, ExplicitDestructor, EndOfScope]"]
  by (simp add: new_instances_def)

text \<open>
  The claim C2 speaks of any sequence. After \<^verbatim>\<open>reset(x)\<close> on the pointer that holds \<open>x\<close>
  the pointer still holds the address of the destroyed instance, and the scope exit
  that follows reads and deletes through it a second time.
\<close>

theorem reset_to_held_then_scope_exit_counterexample:
  "ptr world0 2 = 10 \<and> deletable debug_build world0 10 \<and>
   run debug_build (map (event_op 2) [ExplicitReset 10, EndOfScope]) world0 =
     Inl UndefinedBehaviour"
  by (simp add: world0_def debug_build_def deletable_def PrivateAutoPtr_dtor_def
      reset_def assert_c_def read_verification_def delete_obj_def Let_def)

end
